theory Spec2Isabelle
  imports Main
begin

section \<open>Descriptors read and written by the inference rules\<close>

text \<open>
  The two inference rules of \<^verbatim>\<open>onnx/defs/reduction/defs.cc\<close> read attributes and the
  type of input 0 from an inference context and write the type of output 0. The
  messages they go through and the two helpers they call are declared outside the
  reduction definitions; they are modelled here from the specification, with the
  accessors the rules call. The two rules themselves, in the sections on the reduce
  family and on the arg-reduce family, are translated from the source.
\<close>

text \<open>
  Modelled from the spec: the element kinds of a tensor. The rules name one of them,
  \<^verbatim>\<open>TensorProto_DataType_INT64\<close>, the fixed 64-bit integer kind; a field that was never
  written reads as the first one.
\<close>

datatype TensorProto_DataType =
    TensorProto_DataType_UNDEFINED
  | TensorProto_DataType_FLOAT
  | TensorProto_DataType_UINT8
  | TensorProto_DataType_INT8
  | TensorProto_DataType_UINT16
  | TensorProto_DataType_INT16
  | TensorProto_DataType_INT32
  | TensorProto_DataType_INT64
  | TensorProto_DataType_STRING
  | TensorProto_DataType_BOOL
  | TensorProto_DataType_FLOAT16
  | TensorProto_DataType_DOUBLE
  | TensorProto_DataType_UINT32
  | TensorProto_DataType_UINT64
  | TensorProto_DataType_COMPLEX64
  | TensorProto_DataType_COMPLEX128

text \<open>
  Modelled from the spec: a dimension is either a concrete size or symbolic/unknown
  (a named parameter, or nothing at all). \<^verbatim>\<open>set_dim_value(1)\<close> on a new dimension gives
  \<open>dim_value 1\<close>; \<^verbatim>\<open>CopyFrom\<close> replaces a dimension by the one copied.
\<close>

datatype Dimension = DIM_NOT_SET | dim_value int | dim_param string

type_synonym TensorShapeProto = "Dimension list"

text \<open>
  Modelled from the spec: a tensor type, with its element kind and its shape. The shape
  may be unset (\<^verbatim>\<open>has_shape()\<close> is \<open>shape t \<noteq> None\<close>); a set shape is the ordered
  sequence of its dimensions, its rank their number.
\<close>

record TypeProto_Tensor =
  elem_type :: TensorProto_DataType
  shape :: "TensorShapeProto option"

text \<open>
  Modelled from the spec: the type slot of a value is empty, a plain tensor type, or a
  type of another, incompatible category. The rules only test for the first two
  (\<^verbatim>\<open>value_case()\<close>), so the content of the other categories is a parameter \<open>'k\<close>.
\<close>

datatype 'k TypeProto = VALUE_NOT_SET | kTensorType TypeProto_Tensor | kOtherType 'k

definition default_Tensor :: TypeProto_Tensor where
  "default_Tensor = \<lparr>elem_type = TensorProto_DataType_UNDEFINED, shape = None\<rparr>"

text \<open>
  \<^verbatim>\<open>tensor_type()\<close> reads the tensor held by the slot, the default instance when the slot
  holds none.
\<close>

definition tensor_type :: "'k TypeProto \<Rightarrow> TypeProto_Tensor" where
  "tensor_type tp = (case tp of kTensorType t \<Rightarrow> t | _ \<Rightarrow> default_Tensor)"

text \<open>
  \<^verbatim>\<open>mutable_tensor_type()\<close> turns the slot into a tensor type: a slot that holds a tensor
  keeps it, any other content is discarded for a new default tensor (this is the
  clobbering of a pre-set type of another category that the guard of the arg-reduce rule
  is there to prevent). The model returns the tensor the slot holds afterwards; the
  caller writes it back with \<open>kTensorType\<close>.
\<close>

definition mutable_tensor_type :: "'k TypeProto \<Rightarrow> TypeProto_Tensor" where
  "mutable_tensor_type tp = (case tp of kTensorType t \<Rightarrow> t | _ \<Rightarrow> default_Tensor)"

text \<open>\<^verbatim>\<open>shape()\<close> reads the dimensions, none when the shape is absent.\<close>

definition get_shape :: "TypeProto_Tensor \<Rightarrow> TensorShapeProto" where
  "get_shape t = (case shape t of Some ds \<Rightarrow> ds | None \<Rightarrow> [])"

text \<open>\<^verbatim>\<open>mutable_shape()\<close> creates an empty shape when there is none.\<close>

definition mutable_shape :: "TypeProto_Tensor \<Rightarrow> TensorShapeProto" where
  "mutable_shape t = (case shape t of Some ds \<Rightarrow> ds | None \<Rightarrow> [])"

definition set_elem_type :: "TensorProto_DataType \<Rightarrow> TypeProto_Tensor \<Rightarrow> TypeProto_Tensor" where
  "set_elem_type e t = t\<lparr>elem_type := e\<rparr>"

text \<open>\<^verbatim>\<open>add_dim()\<close> followed by a write to the new dimension.\<close>

definition add_dim :: "TensorShapeProto \<Rightarrow> Dimension \<Rightarrow> TensorShapeProto" where
  "add_dim output_shape d = output_shape @ [d]"

text \<open>
  Modelled from the spec: an attribute value is an integer or an integer sequence.
  \<^verbatim>\<open>i()\<close> reads the integer (0 when the attribute carries none), \<^verbatim>\<open>ints()\<close> the
  sequence (empty when it carries none). Both are 64-bit in the source; the rules only
  compare them and add a rank below \<open>2^31\<close> to a negative one, which cannot wrap, so they
  are integers here.
\<close>

record AttributeProto =
  attr_i :: int
  attr_ints :: "int list"

text \<open>
  Modelled from the spec: the inference context. \<^verbatim>\<open>getAttribute(name)\<close> is the lookup of
  an attribute, where absence is an ordinary outcome (a null pointer in the source);
  \<^verbatim>\<open>getInputType(n)\<close> is the type of input \<open>n\<close>, which may be missing too;
  \<^verbatim>\<open>getOutputType(n)\<close> is the slot of output \<open>n\<close>, which the rule reads and writes.
\<close>

record 'k InferenceContext =
  getAttribute :: "string \<Rightarrow> AttributeProto option"
  getInputType :: "nat \<Rightarrow> 'k TypeProto option"
  getOutputType :: "nat \<Rightarrow> 'k TypeProto"

definition setOutputType :: "'k InferenceContext \<Rightarrow> nat \<Rightarrow> 'k TypeProto \<Rightarrow> 'k InferenceContext" where
  "setOutputType ctx n tp = ctx\<lparr>getOutputType := (getOutputType ctx)(n := tp)\<rparr>"

text \<open>
  Modelled from the spec: \<^verbatim>\<open>hasNInputShapes(ctx, n)\<close>, the predicate that gates the
  best-effort shortcut. The shape of an input is available when the input has a type,
  the type is a tensor type and the tensor has a shape.
\<close>

definition hasInputShape :: "'k InferenceContext \<Rightarrow> nat \<Rightarrow> bool" where
  "hasInputShape ctx n =
     (case getInputType ctx n of
        Some (kTensorType t) \<Rightarrow> shape t \<noteq> None
      | _ \<Rightarrow> False)"

definition hasNInputShapes :: "'k InferenceContext \<Rightarrow> nat \<Rightarrow> bool" where
  "hasNInputShapes ctx n = list_all (hasInputShape ctx) [0..<n]"

text \<open>
  \<^verbatim>\<open>ctx.getInputType(n)->tensor_type()\<close>. The rules dereference the pointer only behind
  \<open>hasNInputShapes\<close>, where it is not null and the type is a tensor type with a shape.
  For a missing input the model reads the default tensor, as \<^verbatim>\<open>tensor_type()\<close> does for
  a type of another category.
\<close>

definition input_tensor_type :: "'k InferenceContext \<Rightarrow> nat \<Rightarrow> TypeProto_Tensor" where
  "input_tensor_type ctx n =
     (case getInputType ctx n of Some tp \<Rightarrow> tensor_type tp | None \<Rightarrow> default_Tensor)"

text \<open>
  Modelled from the spec: \<^verbatim>\<open>propagateElemTypeFromInputToOutput\<close>. The output element
  type becomes the input element type, unconditionally: the output slot is made a tensor
  type and the element type read from the input is written to it. The shape of the
  output is not touched.
\<close>

definition propagateElemTypeFromInputToOutput ::
    "'k InferenceContext \<Rightarrow> nat \<Rightarrow> nat \<Rightarrow> 'k InferenceContext" where
  "propagateElemTypeFromInputToOutput ctx inputIndex outputIndex =
     setOutputType ctx outputIndex
       (kTensorType (set_elem_type (elem_type (input_tensor_type ctx inputIndex))
                       (mutable_tensor_type (getOutputType ctx outputIndex))))"

section \<open>The reduce family: ReduceMax, ReduceMin, ReduceSum, ...\<close>

text \<open>
  The first loop of the rule: every negative entry of \<open>axes\<close> has the rank added, once.
\<close>

definition normalize_axes :: "int list \<Rightarrow> int \<Rightarrow> int list" where
  "normalize_axes axes input_ndim = map (\<lambda>a. if a < 0 then a + input_ndim else a) axes"

text \<open>
  The second loop, \<^verbatim>\<open>for (int i = 0; i < input_ndim; ++i)\<close>, from position \<open>i\<close> on.
  \<^verbatim>\<open>std::find(...) == axes.end()\<close> is \<open>int i \<notin> set axes\<close>. It is called with
  \<open>input_ndim = length input_shape\<close>, so \<open>input_shape ! i\<close> is in range.
\<close>

function reduce_dims :: "int list \<Rightarrow> int \<Rightarrow> TensorShapeProto \<Rightarrow> nat \<Rightarrow> nat \<Rightarrow>
    TensorShapeProto \<Rightarrow> TensorShapeProto" where
  "reduce_dims axes keep_dims input_shape input_ndim i output_shape =
     (if i < input_ndim then
        (if axes \<noteq> [] \<and> int i \<notin> set axes then
           reduce_dims axes keep_dims input_shape input_ndim (Suc i)
             (add_dim output_shape (input_shape ! i))
         else if keep_dims = 1 then
           reduce_dims axes keep_dims input_shape input_ndim (Suc i)
             (add_dim output_shape (dim_value 1))
         else
           reduce_dims axes keep_dims input_shape input_ndim (Suc i) output_shape)
      else output_shape)"
  by pat_completeness auto
termination
  by (relation "measure (\<lambda>(axes, keep_dims, input_shape, input_ndim, i, output_shape).
        input_ndim - i)") auto

declare reduce_dims.simps [simp del]

text \<open>
  The rule: the element type, the early return when the shape of input 0 is not
  available, then the attributes, both passes over the axes and the write of the output shape.
  \<^verbatim>\<open>add_dim\<close> appends to whatever the output shape holds already.
\<close>

definition ReduceInference :: "'k InferenceContext \<Rightarrow> 'k InferenceContext" where
  "ReduceInference ctx0 =
     (let ctx = propagateElemTypeFromInputToOutput ctx0 0 0 in
      if \<not> hasNInputShapes ctx 1 then ctx
      else
        let keep_dims = (case getAttribute ctx ''keepdims'' of
                           Some attr_proto \<Rightarrow> attr_i attr_proto | None \<Rightarrow> 1);
            input_shape = get_shape (input_tensor_type ctx 0);
            input_ndim = length input_shape;
            output_tensor = mutable_tensor_type (getOutputType ctx 0);
            output_shape = mutable_shape output_tensor;
            axes = (case getAttribute ctx ''axes'' of
                      Some axes_proto \<Rightarrow> attr_ints axes_proto | None \<Rightarrow> []);
            axes = normalize_axes axes (int input_ndim)
        in setOutputType ctx 0
             (kTensorType (output_tensor\<lparr>shape :=
                Some (reduce_dims axes keep_dims input_shape input_ndim 0 output_shape)\<rparr>)))"

section \<open>The arg-reduce family: ArgMax, ArgMin\<close>

text \<open>
  The loop of the rule, from position \<open>i\<close> on: the dimension of every axis but \<open>axis\<close> is
  copied, the one at \<open>axis\<close> becomes a dimension of size 1 when \<open>keep_dims\<close> is 1 and is
  left out otherwise.
\<close>

function arg_reduce_dims :: "int \<Rightarrow> int \<Rightarrow> TensorShapeProto \<Rightarrow> nat \<Rightarrow> nat \<Rightarrow>
    TensorShapeProto \<Rightarrow> TensorShapeProto" where
  "arg_reduce_dims axis keep_dims input_shape input_ndim i output_shape =
     (if i < input_ndim then
        (if int i \<noteq> axis then
           arg_reduce_dims axis keep_dims input_shape input_ndim (Suc i)
             (add_dim output_shape (input_shape ! i))
         else if keep_dims = 1 then
           arg_reduce_dims axis keep_dims input_shape input_ndim (Suc i)
             (add_dim output_shape (dim_value 1))
         else
           arg_reduce_dims axis keep_dims input_shape input_ndim (Suc i) output_shape)
      else output_shape)"
  by pat_completeness auto
termination
  by (relation "measure (\<lambda>(axis, keep_dims, input_shape, input_ndim, i, output_shape).
        input_ndim - i)") auto

declare arg_reduce_dims.simps [simp del]

text \<open>
  \<^verbatim>\<open>value_case()\<close>: which category the slot holds. The rules compare it with
  \<^verbatim>\<open>TypeProto::kTensorType\<close> and \<^verbatim>\<open>TypeProto::VALUE_NOT_SET\<close> only.
\<close>

datatype ValueCase = case_VALUE_NOT_SET | case_kTensorType | case_kOtherType

fun value_case :: "'k TypeProto \<Rightarrow> ValueCase" where
  "value_case VALUE_NOT_SET = case_VALUE_NOT_SET"
| "value_case (kTensorType t) = case_kTensorType"
| "value_case (kOtherType k) = case_kOtherType"

text \<open>
  The first statement of the rule, the write of the element type behind its guard on
  \<^verbatim>\<open>value_case()\<close>.
\<close>

definition set_output_int64 :: "'k InferenceContext \<Rightarrow> 'k InferenceContext" where
  "set_output_int64 ctx =
     (let output_type = getOutputType ctx 0 in
      if value_case output_type = case_kTensorType \<or>
         value_case output_type = case_VALUE_NOT_SET then
        setOutputType ctx 0
          (kTensorType (set_elem_type TensorProto_DataType_INT64
                          (mutable_tensor_type output_type)))
      else ctx)"

text \<open>
  The rule. The shape stage goes through \<^verbatim>\<open>mutable_tensor_type()\<close> again, this time
  without a guard.
\<close>

definition ArgReduceInference :: "'k InferenceContext \<Rightarrow> 'k InferenceContext" where
  "ArgReduceInference ctx0 =
     (let ctx = set_output_int64 ctx0 in
      if \<not> hasNInputShapes ctx 1 then ctx
      else
        let input_shape = get_shape (input_tensor_type ctx 0);
            output_tensor = mutable_tensor_type (getOutputType ctx 0);
            output_shape = mutable_shape output_tensor;
            input_ndim = length input_shape;
            axis = (case getAttribute ctx ''axis'' of
                      Some axis_proto \<Rightarrow>
                        (if attr_i axis_proto < 0 then attr_i axis_proto + int input_ndim
                         else attr_i axis_proto)
                    | None \<Rightarrow> 0);
            keep_dims = (case getAttribute ctx ''keepdims'' of
                           Some attr_proto \<Rightarrow> attr_i attr_proto | None \<Rightarrow> 1)
        in setOutputType ctx 0
             (kTensorType (output_tensor\<lparr>shape :=
                Some (arg_reduce_dims axis keep_dims input_shape input_ndim 0 output_shape)\<rparr>)))"

section \<open>Reading a context\<close>

text \<open>
  What the rules read from a context and what an observer reads from the output slot,
  with the accessors of the source: the dimensions of input 0 and of output 0, the
  attribute values with their defaults, and the axes after the rank was added to the
  negative ones.
\<close>

definition input_dims :: "'k InferenceContext \<Rightarrow> TensorShapeProto" where
  "input_dims ctx = get_shape (input_tensor_type ctx 0)"

definition output_dims :: "'k InferenceContext \<Rightarrow> TensorShapeProto" where
  "output_dims ctx = get_shape (tensor_type (getOutputType ctx 0))"

definition keepdims_attr :: "'k InferenceContext \<Rightarrow> int" where
  "keepdims_attr ctx =
     (case getAttribute ctx ''keepdims'' of Some attr_proto \<Rightarrow> attr_i attr_proto | None \<Rightarrow> 1)"

definition axes_attr :: "'k InferenceContext \<Rightarrow> int list" where
  "axes_attr ctx =
     (case getAttribute ctx ''axes'' of Some axes_proto \<Rightarrow> attr_ints axes_proto | None \<Rightarrow> [])"

definition normalized_axes :: "'k InferenceContext \<Rightarrow> int list" where
  "normalized_axes ctx = normalize_axes (axes_attr ctx) (int (length (input_dims ctx)))"

definition normalized_axis :: "'k InferenceContext \<Rightarrow> int" where
  "normalized_axis ctx =
     (case getAttribute ctx ''axis'' of
        Some axis_proto \<Rightarrow>
          (if attr_i axis_proto < 0 then attr_i axis_proto + int (length (input_dims ctx))
           else attr_i axis_proto)
      | None \<Rightarrow> 0)"

text \<open>What one iteration of each loop appends to the output shape.\<close>

definition reduce_emit :: "int list \<Rightarrow> int \<Rightarrow> TensorShapeProto \<Rightarrow> nat \<Rightarrow> TensorShapeProto" where
  "reduce_emit axes keep_dims input_shape j =
     (if axes \<noteq> [] \<and> int j \<notin> set axes then [input_shape ! j]
      else if keep_dims = 1 then [dim_value 1] else [])"

definition arg_reduce_emit :: "int \<Rightarrow> int \<Rightarrow> TensorShapeProto \<Rightarrow> nat \<Rightarrow> TensorShapeProto" where
  "arg_reduce_emit axis keep_dims input_shape j =
     (if int j \<noteq> axis then [input_shape ! j]
      else if keep_dims = 1 then [dim_value 1] else [])"

text \<open>
  The axes a reduce rule acts on: every axis of the input when the list of axes is empty
  (the attribute is absent, or present without an entry), the normalized entries
  otherwise.
\<close>

definition selected_axes :: "'k InferenceContext \<Rightarrow> int set" where
  "selected_axes ctx =
     (if axes_attr ctx = [] then int ` {0..<length (input_dims ctx)}
      else set (normalized_axes ctx))"

text \<open>
  The slot the second loop of the reduce rule has reached when it comes to axis \<open>i\<close>,
  for a non-empty list of axes and an output shape that was empty before the loop: one
  dimension was appended for every earlier axis outside the list and, when
  \<open>keepdims = 1\<close>, one for every earlier axis in the list.
\<close>

definition output_slot :: "'k InferenceContext \<Rightarrow> nat \<Rightarrow> nat" where
  "output_slot ctx i =
     length (filter (\<lambda>j. keepdims_attr ctx = 1 \<or> int j \<notin> set (normalized_axes ctx)) [0..<i])"

text \<open>
  The context of the same node with one attribute given another value.
\<close>

definition setAttribute :: "'k InferenceContext \<Rightarrow> string \<Rightarrow> AttributeProto \<Rightarrow> 'k InferenceContext" where
  "setAttribute ctx name attr_proto = ctx\<lparr>getAttribute := (getAttribute ctx)(name \<mapsto> attr_proto)\<rparr>"

section \<open>Example contexts\<close>

text \<open>
  Contexts for evaluating the rules: input 0 is a float tensor with the given dimensions,
  the output slot starts with the given content.
\<close>

definition int_attr :: "int \<Rightarrow> AttributeProto" where
  "int_attr v = \<lparr>attr_i = v, attr_ints = []\<rparr>"

definition ints_attr :: "int list \<Rightarrow> AttributeProto" where
  "ints_attr vs = \<lparr>attr_i = 0, attr_ints = vs\<rparr>"

definition example_ctx :: "(string \<Rightarrow> AttributeProto option) \<Rightarrow> TensorShapeProto \<Rightarrow>
    unit TypeProto \<Rightarrow> unit InferenceContext" where
  "example_ctx attrs ds out =
     \<lparr>getAttribute = attrs,
      getInputType = (\<lambda>n. if n = 0
         then Some (kTensorType \<lparr>elem_type = TensorProto_DataType_FLOAT, shape = Some ds\<rparr>)
         else None),
      getOutputType = (\<lambda>n. out)\<rparr>"

definition ctx_axes_neg1_1 :: "unit InferenceContext" where
  "ctx_axes_neg1_1 = example_ctx
     [''axes'' \<mapsto> ints_attr [-1, 1], ''keepdims'' \<mapsto> int_attr 0]
     [dim_value 2, dim_value 3, dim_param ''N''] VALUE_NOT_SET"

text \<open>
  Arg-reduce on shape \<open>[5, 6]\<close> with \<open>axis = -1\<close>, and with an axis beyond the rank.
\<close>

definition ctx_arg_neg1 :: "unit InferenceContext" where
  "ctx_arg_neg1 = example_ctx
     [''axis'' \<mapsto> int_attr (-1), ''keepdims'' \<mapsto> int_attr 0]
     [dim_value 5, dim_value 6] VALUE_NOT_SET"

definition ctx_arg_axis5 :: "unit InferenceContext" where
  "ctx_arg_axis5 = example_ctx
     [''axis'' \<mapsto> int_attr 5, ''keepdims'' \<mapsto> int_attr 0]
     [dim_value 5, dim_param ''N''] VALUE_NOT_SET"

text \<open>
  A \<open>keepdims\<close> value that is neither 0 nor 1; the default \<open>keepdims\<close> with one axis
  selected; no \<open>axes\<close> attribute.
\<close>

definition ctx_keepdims_2 :: "unit InferenceContext" where
  "ctx_keepdims_2 = example_ctx
     [''axes'' \<mapsto> ints_attr [1], ''axis'' \<mapsto> int_attr 1, ''keepdims'' \<mapsto> int_attr 2]
     [dim_value 2, dim_value 3, dim_param ''N''] VALUE_NOT_SET"

definition ctx_axes_1_keep :: "unit InferenceContext" where
  "ctx_axes_1_keep = example_ctx
     [''axes'' \<mapsto> ints_attr [1]]
     [dim_value 2, dim_value 3, dim_param ''N''] VALUE_NOT_SET"

definition ctx_all_axes :: "unit InferenceContext" where
  "ctx_all_axes = example_ctx [''keepdims'' \<mapsto> int_attr 0]
     [dim_value 2, dim_value 3, dim_value 4] VALUE_NOT_SET"

text \<open>
  An input whose tensor type has no shape, and an output slot that already holds a type
  of another category than tensor.
\<close>

definition ctx_no_shape :: "unit InferenceContext" where
  "ctx_no_shape =
     \<lparr>getAttribute = Map.empty,
      getInputType = (\<lambda>n. if n = 0
         then Some (kTensorType \<lparr>elem_type = TensorProto_DataType_DOUBLE, shape = None\<rparr>)
         else None),
      getOutputType = (\<lambda>n. VALUE_NOT_SET)\<rparr>"

definition ctx_preset_other :: "unit InferenceContext" where
  "ctx_preset_other = example_ctx Map.empty [dim_value 2, dim_value 3] (kOtherType ())"

section \<open>Closed forms of the two passes\<close>

lemma reduce_dims_step:
  "i < n \<Longrightarrow> reduce_dims axes kd ds n i out =
     reduce_dims axes kd ds n (Suc i) (out @ reduce_emit axes kd ds i)"
  by (simp add: reduce_dims.simps [of axes kd ds n i out] reduce_emit_def add_dim_def)

lemma reduce_dims_done: "\<not> i < n \<Longrightarrow> reduce_dims axes kd ds n i out = out"
  by (simp add: reduce_dims.simps [of axes kd ds n i out])

lemma reduce_dims_concat:
  "reduce_dims axes kd ds n i out = out @ concat (map (reduce_emit axes kd ds) [i..<n])"
proof (induction "n - i" arbitrary: i out)
  case 0
  then show ?case by (simp add: reduce_dims_done)
next
  case (Suc k)
  then have lt: "i < n" and k: "k = n - Suc i" by simp_all
  have "reduce_dims axes kd ds n i out =
      reduce_dims axes kd ds n (Suc i) (out @ reduce_emit axes kd ds i)"
    using lt by (rule reduce_dims_step)
  also have "\<dots> = (out @ reduce_emit axes kd ds i) @
      concat (map (reduce_emit axes kd ds) [Suc i..<n])"
    using k by (rule Suc.hyps(1))
  finally show ?case using lt by (simp add: upt_conv_Cons)
qed

lemma arg_reduce_dims_step:
  "i < n \<Longrightarrow> arg_reduce_dims axis kd ds n i out =
     arg_reduce_dims axis kd ds n (Suc i) (out @ arg_reduce_emit axis kd ds i)"
  by (simp add: arg_reduce_dims.simps [of axis kd ds n i out] arg_reduce_emit_def add_dim_def)

lemma arg_reduce_dims_done: "\<not> i < n \<Longrightarrow> arg_reduce_dims axis kd ds n i out = out"
  by (simp add: arg_reduce_dims.simps [of axis kd ds n i out])

lemma arg_reduce_dims_concat:
  "arg_reduce_dims axis kd ds n i out =
     out @ concat (map (arg_reduce_emit axis kd ds) [i..<n])"
proof (induction "n - i" arbitrary: i out)
  case 0
  then show ?case by (simp add: arg_reduce_dims_done)
next
  case (Suc k)
  then have lt: "i < n" and k: "k = n - Suc i" by simp_all
  have "arg_reduce_dims axis kd ds n i out =
      arg_reduce_dims axis kd ds n (Suc i) (out @ arg_reduce_emit axis kd ds i)"
    using lt by (rule arg_reduce_dims_step)
  also have "\<dots> = (out @ arg_reduce_emit axis kd ds i) @
      concat (map (arg_reduce_emit axis kd ds) [Suc i..<n])"
    using k by (rule Suc.hyps(1))
  finally show ?case using lt by (simp add: upt_conv_Cons)
qed

lemma hasNInputShapes_1 [simp]: "hasNInputShapes ctx (Suc 0) = hasInputShape ctx 0"
  by (simp add: hasNInputShapes_def)

lemma setOutputType_sel [simp]:
  "getAttribute (setOutputType ctx n tp) = getAttribute ctx"
  "getInputType (setOutputType ctx n tp) = getInputType ctx"
  "getOutputType (setOutputType ctx n tp) n = tp"
  by (simp_all add: setOutputType_def)

lemma propagate_sel [simp]:
  "getAttribute (propagateElemTypeFromInputToOutput ctx a b) = getAttribute ctx"
  "getInputType (propagateElemTypeFromInputToOutput ctx a b) = getInputType ctx"
  by (simp_all add: propagateElemTypeFromInputToOutput_def)

lemma set_output_int64_sel [simp]:
  "getAttribute (set_output_int64 ctx) = getAttribute ctx"
  "getInputType (set_output_int64 ctx) = getInputType ctx"
  by (simp_all add: set_output_int64_def Let_def)

lemma hasInputShape_setOutputType [simp]:
  "hasInputShape (setOutputType ctx n tp) = hasInputShape ctx"
  by (rule ext) (simp add: hasInputShape_def)

lemma hasInputShape_propagate [simp]:
  "hasInputShape (propagateElemTypeFromInputToOutput ctx a b) = hasInputShape ctx"
  by (rule ext) (simp add: hasInputShape_def)

lemma hasInputShape_set_output_int64 [simp]:
  "hasInputShape (set_output_int64 ctx) = hasInputShape ctx"
  by (rule ext) (simp add: hasInputShape_def)

lemma input_tensor_type_propagate [simp]:
  "input_tensor_type (propagateElemTypeFromInputToOutput ctx a b) = input_tensor_type ctx"
  by (rule ext) (simp add: input_tensor_type_def)

lemma input_tensor_type_set_output_int64 [simp]:
  "input_tensor_type (set_output_int64 ctx) = input_tensor_type ctx"
  by (rule ext) (simp add: input_tensor_type_def)


lemma mutable_is_tensor_type: "mutable_tensor_type tp = tensor_type tp"
  by (simp add: mutable_tensor_type_def tensor_type_def)

lemma mutable_shape_is_get_shape: "mutable_shape t = get_shape t"
  by (simp add: mutable_shape_def get_shape_def)

lemma ReduceInference_output:
  assumes "hasNInputShapes ctx 1"
  shows "getOutputType (ReduceInference ctx) 0 =
     kTensorType \<lparr>elem_type = elem_type (input_tensor_type ctx 0),
       shape = Some (output_dims ctx @
         concat (map (reduce_emit (normalized_axes ctx) (keepdims_attr ctx) (input_dims ctx))
                   [0..<length (input_dims ctx)]))\<rparr>"
proof -
  let ?c = "propagateElemTypeFromInputToOutput ctx 0 0"
  have h: "hasInputShape ctx 0" using assms by simp
  have o: "getOutputType ?c 0 =
      kTensorType (set_elem_type (elem_type (input_tensor_type ctx 0)) (tensor_type (getOutputType ctx 0)))"
    by (simp add: propagateElemTypeFromInputToOutput_def mutable_is_tensor_type)
  have t: "tensor_type (kTensorType x) = x" for x :: TypeProto_Tensor
    by (simp add: tensor_type_def)
  have "getOutputType (ReduceInference ctx) 0 =
     kTensorType ((tensor_type (getOutputType ?c 0))\<lparr>shape :=
        Some (reduce_dims (normalized_axes ctx) (keepdims_attr ctx) (input_dims ctx)
               (length (input_dims ctx)) 0 (get_shape (tensor_type (getOutputType ?c 0))))\<rparr>)"
    unfolding ReduceInference_def Let_def
    by (simp add: h mutable_is_tensor_type mutable_shape_is_get_shape 
        normalized_axes_def keepdims_attr_def axes_attr_def input_dims_def)
  then show ?thesis
    by (simp add: o t reduce_dims_concat set_elem_type_def get_shape_def output_dims_def)
qed


lemma set_output_int64_dims:
  "get_shape (tensor_type (getOutputType (set_output_int64 ctx) 0)) = output_dims ctx"
  by (cases "getOutputType ctx 0")
     (simp_all add: set_output_int64_def Let_def mutable_is_tensor_type tensor_type_def
        set_elem_type_def get_shape_def output_dims_def)

lemma ArgReduceInference_output:
  assumes "hasNInputShapes ctx 1"
  shows "getOutputType (ArgReduceInference ctx) 0 =
     kTensorType ((tensor_type (getOutputType (set_output_int64 ctx) 0))\<lparr>shape :=
       Some (output_dims ctx @
         concat (map (arg_reduce_emit (normalized_axis ctx) (keepdims_attr ctx) (input_dims ctx))
                   [0..<length (input_dims ctx)]))\<rparr>)"
proof -
  have h: "hasInputShape ctx 0" using assms by simp
  show ?thesis
    unfolding ArgReduceInference_def Let_def input_tensor_type_set_output_int64
      set_output_int64_sel normalized_axis_def keepdims_attr_def input_dims_def
    by (simp add: h mutable_is_tensor_type mutable_shape_is_get_shape set_output_int64_dims
        arg_reduce_dims_concat)
qed

lemma ReduceInference_output_dims:
  assumes "hasNInputShapes ctx 1"
  shows "output_dims (ReduceInference ctx) = output_dims ctx @
         concat (map (reduce_emit (normalized_axes ctx) (keepdims_attr ctx) (input_dims ctx))
                   [0..<length (input_dims ctx)])"
  by (simp add: output_dims_def [of "ReduceInference ctx"] ReduceInference_output [OF assms]
      tensor_type_def get_shape_def)

lemma ArgReduceInference_output_dims:
  assumes "hasNInputShapes ctx 1"
  shows "output_dims (ArgReduceInference ctx) = output_dims ctx @
         concat (map (arg_reduce_emit (normalized_axis ctx) (keepdims_attr ctx) (input_dims ctx))
                   [0..<length (input_dims ctx)])"
  by (simp add: output_dims_def [of "ArgReduceInference ctx"] ArgReduceInference_output [OF assms]
      tensor_type_def [of "kTensorType t" for t] get_shape_def [of "t\<lparr>shape := s\<rparr>" for t s])

lemma concat_reduce_emit_keep:
  "concat (map (reduce_emit axes 1 ds) xs) =
     map (\<lambda>j. if axes \<noteq> [] \<and> int j \<notin> set axes then ds ! j else dim_value 1) xs"
  by (induction xs) (simp_all add: reduce_emit_def)

lemma concat_reduce_emit_drop:
  "kd \<noteq> 1 \<Longrightarrow> concat (map (reduce_emit axes kd ds) xs) =
     map ((!) ds) (filter (\<lambda>j. axes \<noteq> [] \<and> int j \<notin> set axes) xs)"
  by (induction xs) (simp_all add: reduce_emit_def)

lemma concat_arg_reduce_emit_keep:
  "concat (map (arg_reduce_emit axis 1 ds) xs) =
     map (\<lambda>j. if int j \<noteq> axis then ds ! j else dim_value 1) xs"
  by (induction xs) (simp_all add: arg_reduce_emit_def)

lemma concat_arg_reduce_emit_drop:
  "kd \<noteq> 1 \<Longrightarrow> concat (map (arg_reduce_emit axis kd ds) xs) =
     map ((!) ds) (filter (\<lambda>j. int j \<noteq> axis) xs)"
  by (induction xs) (simp_all add: arg_reduce_emit_def)

lemma count_unselected:
  assumes "\<forall>a\<in>S. 0 \<le> a \<and> a < int r" and "finite S"
  shows "length (filter (\<lambda>j. int j \<notin> S) [0..<r]) = r - card S"
proof -
  have inj: "inj_on nat S"
  proof (rule inj_onI)
    fix x y assume "x \<in> S" "y \<in> S" "nat x = nat y"
    moreover from this assms(1) have "0 \<le> x" "0 \<le> y" by auto
    ultimately show "x = y" by (simp add: eq_nat_nat_iff)
  qed
  have sub: "nat ` S \<subseteq> {0..<r}" using assms(1) by auto
  have mem: "int j \<in> S \<longleftrightarrow> j \<in> nat ` S" for j
  proof
    assume "int j \<in> S"
    then show "j \<in> nat ` S" by (metis image_eqI nat_int)
  next
    assume "j \<in> nat ` S"
    then obtain a where a: "a \<in> S" "j = nat a" by blast
    with assms(1) have "0 \<le> a" by blast
    with a show "int j \<in> S" by simp
  qed
  have "set (filter (\<lambda>j. int j \<notin> S) [0..<r]) = {0..<r} - nat ` S"
    by (auto simp: mem)
  moreover have "distinct (filter (\<lambda>j. int j \<notin> S) [0..<r])" by simp
  ultimately have "length (filter (\<lambda>j. int j \<notin> S) [0..<r]) = card ({0..<r} - nat ` S)"
    by (metis distinct_card)
  also have "\<dots> = card {0..<r} - card (nat ` S)"
    using sub by (simp add: card_Diff_subset finite_subset)
  also have "\<dots> = r - card S" using inj by (simp add: card_image)
  finally show ?thesis .
qed

lemma example_ctx_sel [simp]:
  "getAttribute (example_ctx attrs ds out) = attrs"
  "getInputType (example_ctx attrs ds out) 0 =
     Some (kTensorType \<lparr>elem_type = TensorProto_DataType_FLOAT, shape = Some ds\<rparr>)"
  "getOutputType (example_ctx attrs ds out) n = out"
  by (simp_all add: example_ctx_def)

lemma example_ctx_reads [simp]:
  "hasInputShape (example_ctx attrs ds out) 0"
  "input_dims (example_ctx attrs ds out) = ds"
  "output_dims (example_ctx attrs ds out) = get_shape (tensor_type out)"
  by (simp_all add: hasInputShape_def input_dims_def output_dims_def input_tensor_type_def
      tensor_type_def get_shape_def)

lemma tensor_type_simps [simp]:
  "tensor_type VALUE_NOT_SET = default_Tensor"
  "tensor_type (kTensorType t) = t"
  "tensor_type (kOtherType k) = default_Tensor"
  by (simp_all add: tensor_type_def)

lemma get_shape_simps [simp]:
  "get_shape default_Tensor = []"
  "get_shape \<lparr>elem_type = e, shape = s\<rparr> = (case s of Some ds \<Rightarrow> ds | None \<Rightarrow> [])"
  by (simp_all add: get_shape_def default_Tensor_def)


lemma normalized_axes_example [simp]:
  "normalized_axes (example_ctx attrs ds out) =
     normalize_axes (case attrs ''axes'' of Some a \<Rightarrow> attr_ints a | None \<Rightarrow> [])
       (int (length ds))"
  by (simp add: normalized_axes_def axes_attr_def)

lemma normalized_axis_example [simp]:
  "normalized_axis (example_ctx attrs ds out) =
     (case attrs ''axis'' of
        Some a \<Rightarrow> (if attr_i a < 0 then attr_i a + int (length ds) else attr_i a)
      | None \<Rightarrow> 0)"
  by (simp add: normalized_axis_def split: option.split)

lemma keepdims_attr_example [simp]:
  "keepdims_attr (example_ctx attrs ds out) =
     (case attrs ''keepdims'' of Some a \<Rightarrow> attr_i a | None \<Rightarrow> 1)"
  by (simp add: keepdims_attr_def)

lemma attr_simps [simp]:
  "attr_i (int_attr v) = v" "attr_ints (int_attr v) = []"
  "attr_i (ints_attr vs) = 0" "attr_ints (ints_attr vs) = vs"
  by (simp_all add: int_attr_def ints_attr_def)

lemma length_filter_neq_upt:
  "length (filter (\<lambda>j. int j \<noteq> a) [0..<r]) = (if 0 \<le> a \<and> a < int r then r - 1 else r)"
proof (induction r)
  case 0
  then show ?case by simp
next
  case (Suc r)
  then show ?case by (auto simp: Suc_diff_le)
qed

lemma filter_neq_upt_outside:
  "a < 0 \<or> int r \<le> a \<Longrightarrow> filter (\<lambda>j. int j \<noteq> a) [0..<r] = [0..<r]"
  by (rule filter_True) auto

lemma selected_axes_member:
  "j < length (input_dims ctx) \<Longrightarrow>
     (int j \<in> selected_axes ctx) =
     (\<not> (normalized_axes ctx \<noteq> [] \<and> int j \<notin> set (normalized_axes ctx)))"
  by (auto simp: selected_axes_def normalized_axes_def normalize_axes_def)

lemma length_concat_reduce_emit:
  "axes \<noteq> [] \<Longrightarrow> length (concat (map (reduce_emit axes kd ds) xs)) =
     length (filter (\<lambda>j. kd = 1 \<or> int j \<notin> set axes) xs)"
  by (induction xs) (simp_all add: reduce_emit_def)

lemma selected_axes_example [simp]:
  "selected_axes (example_ctx attrs ds out) =
     (if (case attrs ''axes'' of Some a \<Rightarrow> attr_ints a | None \<Rightarrow> []) = []
      then int ` {0..<length ds}
      else set (normalize_axes (case attrs ''axes'' of Some a \<Rightarrow> attr_ints a | None \<Rightarrow> [])
                  (int (length ds))))"
  by (simp add: selected_axes_def axes_attr_def)

lemma upt_3: "[0..<3] = [0, 1, 2::nat]"
  by (simp add: eval_nat_numeral)

lemma output_slot_example [simp]:
  "output_slot (example_ctx attrs ds out) i =
     length (filter (\<lambda>j. keepdims_attr (example_ctx attrs ds out) = 1 \<or>
        int j \<notin> set (normalized_axes (example_ctx attrs ds out))) [0..<i])"
  by (simp add: output_slot_def)

lemma setAttribute_sel [simp]:
  "getAttribute (setAttribute ctx name a) = (getAttribute ctx)(name \<mapsto> a)"
  "getInputType (setAttribute ctx name a) = getInputType ctx"
  "getOutputType (setAttribute ctx name a) = getOutputType ctx"
  by (simp_all add: setAttribute_def)

lemma setAttribute_reads [simp]:
  "hasInputShape (setAttribute ctx name a) = hasInputShape ctx"
  "input_tensor_type (setAttribute ctx name a) = input_tensor_type ctx"
  "input_dims (setAttribute ctx name a) = input_dims ctx"
  "output_dims (setAttribute ctx name a) = output_dims ctx"
  by (simp_all add: hasInputShape_def input_tensor_type_def input_dims_def output_dims_def
      fun_eq_iff)

lemma set_output_int64_setAttribute:
  "getOutputType (set_output_int64 (setAttribute ctx name a)) 0 =
     getOutputType (set_output_int64 ctx) 0"
  by (simp add: set_output_int64_def Let_def)

lemma normalize_axes_update:
  assumes "k < length xs" and "- r \<le> xs ! k" and "xs ! k < 0"
  shows "normalize_axes (xs[k := xs ! k + r]) r = normalize_axes xs r"
proof -
  have "normalize_axes (xs[k := xs ! k + r]) r =
      (normalize_axes xs r)[k := xs ! k + r]"
    using assms(2) by (simp add: normalize_axes_def map_update)
  also have "\<dots> = normalize_axes xs r"
    using assms(1,3) by (simp add: normalize_axes_def list_update_same_conv)
  finally show ?thesis .
qed

section \<open>Claims\<close>

text \<open>
  C1. Let the shape of input 0 be available with rank \<open>r\<close>, let the output descriptor
  hold no dimension before the call, and let every normalized axis lie in \<open>[0, r)\<close>.
  Then the reduce rule produces an output shape of rank \<open>r\<close> when \<open>keepdims = 1\<close>, and
  of rank \<open>r - |selected axes|\<close> otherwise, in particular when \<open>keepdims = 0\<close>. The
  selected axes are all \<open>r\<close> axes when the list of axes is empty, which is what the rule
  reads when the attribute is absent, and the normalized entries otherwise.
\<close>

theorem reduce_rank_by_selected_axes:
  assumes "hasNInputShapes ctx 1"
    and "output_dims ctx = []"
    and "\<forall>a\<in>set (normalized_axes ctx). 0 \<le> a \<and> a < int (length (input_dims ctx))"
  shows "length (output_dims (ReduceInference ctx)) =
     (if keepdims_attr ctx = 1 then length (input_dims ctx)
      else length (input_dims ctx) - card (selected_axes ctx))"
proof (cases "keepdims_attr ctx = 1")
  case True
  then show ?thesis
    by (simp add: ReduceInference_output_dims [OF assms(1)] assms(2) concat_reduce_emit_keep)
next
  case False
  let ?r = "length (input_dims ctx)"
  let ?A = "normalized_axes ctx"
  have d: "length (output_dims (ReduceInference ctx)) =
      length (filter (\<lambda>j. ?A \<noteq> [] \<and> int j \<notin> set ?A) [0..<?r])"
    by (simp add: ReduceInference_output_dims [OF assms(1)] assms(2)
        concat_reduce_emit_drop [OF False])
  have e: "(?A = []) = (axes_attr ctx = [])"
    by (simp add: normalized_axes_def normalize_axes_def)
  show ?thesis
  proof (cases "axes_attr ctx = []")
    case True
    have "card (int ` {0..<?r}) = ?r" by (simp add: card_image)
    then show ?thesis using True False d e by (simp add: selected_axes_def)
  next
    case nonempty: False
    then have "length (output_dims (ReduceInference ctx)) =
        length (filter (\<lambda>j. int j \<notin> set ?A) [0..<?r])"
      using d e by simp
    also have "\<dots> = ?r - card (set ?A)"
      using assms(3) by (rule count_unselected) simp
    finally show ?thesis using nonempty False by (simp add: selected_axes_def)
  qed
qed

text \<open>
  The theorem at a rank-3 input with \<open>axes = [-1, 1]\<close> and \<open>keepdims = 0\<close>: two axes
  are selected, one dimension is left.
\<close>

theorem reduce_rank_by_selected_axes_witness:
  "hasNInputShapes ctx_axes_neg1_1 1 \<and> output_dims ctx_axes_neg1_1 = [] \<and>
   normalized_axes ctx_axes_neg1_1 = [2, 1] \<and> length (input_dims ctx_axes_neg1_1) = 3 \<and>
   keepdims_attr ctx_axes_neg1_1 = 0 \<and>
   length (output_dims (ReduceInference ctx_axes_neg1_1)) = 1"
  using reduce_rank_by_selected_axes [of ctx_axes_neg1_1]
  by (simp add: ctx_axes_neg1_1_def normalize_axes_def ints_attr_def int_attr_def
      keepdims_attr_def axes_attr_def selected_axes_def)

text \<open>
  C2. Let the shape of input 0 be available with rank \<open>r\<close>, the output descriptor hold no
  dimension before the call, and the normalized axis lie in \<open>[0, r)\<close> (so \<open>r \<ge> 1\<close>).
  Then the arg-reduce rule produces an output shape of rank \<open>r\<close> when \<open>keepdims = 1\<close>,
  and of rank \<open>r - 1\<close> otherwise.
\<close>

theorem arg_reduce_rank_one_less:
  assumes "hasNInputShapes ctx 1"
    and "output_dims ctx = []"
    and "0 \<le> normalized_axis ctx"
    and "normalized_axis ctx < int (length (input_dims ctx))"
  shows "1 \<le> length (input_dims ctx) \<and>
     length (output_dims (ArgReduceInference ctx)) =
       (if keepdims_attr ctx = 1 then length (input_dims ctx)
        else length (input_dims ctx) - 1)"
proof (cases "keepdims_attr ctx = 1")
  case True
  then show ?thesis
    using assms(3,4)
    by (simp add: ArgReduceInference_output_dims [OF assms(1)] assms(2)
        concat_arg_reduce_emit_keep)
next
  case False
  then show ?thesis
    using assms(3,4)
    by (simp add: ArgReduceInference_output_dims [OF assms(1)] assms(2)
        concat_arg_reduce_emit_drop [OF False] length_filter_neq_upt)
qed

text \<open>
  The theorem on shape \<open>[5, 6]\<close> with \<open>axis = -1\<close>, which normalizes to 1, and
  \<open>keepdims = 0\<close>.
\<close>

theorem arg_reduce_rank_one_less_witness:
  "hasNInputShapes ctx_arg_neg1 1 \<and> output_dims ctx_arg_neg1 = [] \<and>
   normalized_axis ctx_arg_neg1 = 1 \<and> length (input_dims ctx_arg_neg1) = 2 \<and>
   keepdims_attr ctx_arg_neg1 = 0 \<and>
   length (output_dims (ArgReduceInference ctx_arg_neg1)) = 1"
  using arg_reduce_rank_one_less [of ctx_arg_neg1]
  by (simp add: ctx_arg_neg1_def)

text \<open>
  C3. When the shape of input 0 is not available, each rule does its element-type step
  and nothing else: the reduce rule returns what \<open>propagateElemTypeFromInputToOutput\<close>
  returns, the arg-reduce rule what the guarded write of the 64-bit integer kind returns.
  Both are total functions, so no error is raised, and the shape of the output is what
  it was before the call: a shape that was unset is still unset.
\<close>

theorem unknown_input_shape_only_elem_type:
  assumes "\<not> hasNInputShapes ctx 1"
  shows "ReduceInference ctx = propagateElemTypeFromInputToOutput ctx 0 0 \<and>
     shape (tensor_type (getOutputType (ReduceInference ctx) 0)) =
       shape (tensor_type (getOutputType ctx 0)) \<and>
     ArgReduceInference ctx = set_output_int64 ctx \<and>
     shape (tensor_type (getOutputType (ArgReduceInference ctx) 0)) =
       shape (tensor_type (getOutputType ctx 0))"
proof -
  have r: "ReduceInference ctx = propagateElemTypeFromInputToOutput ctx 0 0"
    using assms by (simp add: ReduceInference_def Let_def)
  have a: "ArgReduceInference ctx = set_output_int64 ctx"
    using assms by (simp add: ArgReduceInference_def Let_def)
  have rs: "shape (tensor_type (getOutputType (propagateElemTypeFromInputToOutput ctx 0 0) 0)) =
      shape (tensor_type (getOutputType ctx 0))"
    by (simp add: propagateElemTypeFromInputToOutput_def set_elem_type_def
        mutable_is_tensor_type)
  have as: "shape (tensor_type (getOutputType (set_output_int64 ctx) 0)) =
      shape (tensor_type (getOutputType ctx 0))"
    by (cases "getOutputType ctx 0")
       (simp_all add: set_output_int64_def Let_def set_elem_type_def mutable_is_tensor_type)
  show ?thesis by (simp add: r a rs as)
qed

text \<open>
  The theorem on an input tensor type without shape and a new output slot: afterwards the
  slot holds the element type and no shape.
\<close>

theorem unknown_input_shape_only_elem_type_witness:
  "\<not> hasNInputShapes ctx_no_shape 1 \<and>
   getOutputType (ReduceInference ctx_no_shape) 0 =
     kTensorType \<lparr>elem_type = TensorProto_DataType_DOUBLE, shape = None\<rparr> \<and>
   getOutputType (ArgReduceInference ctx_no_shape) 0 =
     kTensorType \<lparr>elem_type = TensorProto_DataType_INT64, shape = None\<rparr>"
  using unknown_input_shape_only_elem_type [of ctx_no_shape]
  by (simp add: ctx_no_shape_def hasInputShape_def propagateElemTypeFromInputToOutput_def
      set_output_int64_def Let_def set_elem_type_def mutable_tensor_type_def default_Tensor_def
      input_tensor_type_def)

text \<open>
  C4 fails on the code. The output slot holds a type of another category than tensor and
  the shape of input 0 is available. The guard skips the write of the element type, but
  the shape stage then calls \<open>mutable_tensor_type\<close> on the slot without a guard: the
  pre-set type is replaced by a tensor type with no element type written and with the
  inferred dimensions.
\<close>

theorem ArgReduceInference_replaces_preset_type:
  "hasNInputShapes ctx_preset_other 1 \<and>
   getOutputType ctx_preset_other 0 = kOtherType () \<and>
   getOutputType (ArgReduceInference ctx_preset_other) 0 =
     kTensorType \<lparr>elem_type = TensorProto_DataType_UNDEFINED,
                   shape = Some [dim_value 1, dim_value 3]\<rparr>"
proof -
  have h: "hasNInputShapes ctx_preset_other 1" by (simp add: ctx_preset_other_def)
  have s: "getOutputType (set_output_int64 ctx_preset_other) 0 = kOtherType ()"
    by (simp add: set_output_int64_def Let_def ctx_preset_other_def)
  show ?thesis
    using h
    by (simp add: ArgReduceInference_output [OF h] s)
       (simp add: ctx_preset_other_def default_Tensor_def arg_reduce_emit_def
          eval_nat_numeral)
qed

text \<open>
  C5. After a reduce rule the element type of output 0 is the element type of input 0,
  whether or not the shape of the input is available.
\<close>

theorem ReduceInference_elem_type_passthrough:
  "elem_type (tensor_type (getOutputType (ReduceInference ctx) 0)) =
     elem_type (input_tensor_type ctx 0)"
proof (cases "hasNInputShapes ctx 1")
  case True
  then show ?thesis by (simp add: ReduceInference_output)
next
  case False
  then show ?thesis
    by (simp add: ReduceInference_def Let_def propagateElemTypeFromInputToOutput_def
        set_elem_type_def)
qed

text \<open>
  C6. Let the shape of input 0 be available with rank \<open>r\<close> and let \<open>-r \<le> a < 0\<close>. The
  arg-reduce rule writes the same output type (shape and element type) for
  \<open>axis = a\<close> and for \<open>axis = a + r\<close>; the reduce rule writes the same output type for
  a list of axes with the entry \<open>a\<close> at some position and for the list with \<open>a + r\<close> at
  that position.
\<close>

theorem negative_axis_same_as_positive:
  assumes "hasNInputShapes ctx 1"
    and "r = int (length (input_dims ctx))"
    and "- r \<le> a" and "a < 0"
  shows "getOutputType (ArgReduceInference (setAttribute ctx ''axis'' (A\<lparr>attr_i := a\<rparr>))) 0 =
       getOutputType (ArgReduceInference (setAttribute ctx ''axis'' (A\<lparr>attr_i := a + r\<rparr>))) 0 \<and>
     (k < length xs \<and> xs ! k = a \<longrightarrow>
       getOutputType (ReduceInference (setAttribute ctx ''axes'' (B\<lparr>attr_ints := xs\<rparr>))) 0 =
       getOutputType (ReduceInference
         (setAttribute ctx ''axes'' (B\<lparr>attr_ints := xs[k := a + r]\<rparr>))) 0)"
proof (intro conjI impI)
  let ?c1 = "setAttribute ctx ''axis'' (A\<lparr>attr_i := a\<rparr>)"
  let ?c2 = "setAttribute ctx ''axis'' (A\<lparr>attr_i := a + r\<rparr>)"
  have h1: "hasNInputShapes ?c1 1" and h2: "hasNInputShapes ?c2 1"
    using assms(1) by simp_all
  have ax: "normalized_axis ?c1 = normalized_axis ?c2"
    using assms(2-4) by (simp add: normalized_axis_def)
  have kd: "keepdims_attr ?c1 = keepdims_attr ?c2"
    by (simp add: keepdims_attr_def)
  show "getOutputType (ArgReduceInference ?c1) 0 = getOutputType (ArgReduceInference ?c2) 0"
    by (simp add: ArgReduceInference_output [OF h1] ArgReduceInference_output [OF h2]
        ax kd set_output_int64_setAttribute)
next
  assume k: "k < length xs \<and> xs ! k = a"
  let ?c1 = "setAttribute ctx ''axes'' (B\<lparr>attr_ints := xs\<rparr>)"
  let ?c2 = "setAttribute ctx ''axes'' (B\<lparr>attr_ints := xs[k := a + r]\<rparr>)"
  have h1: "hasNInputShapes ?c1 1" and h2: "hasNInputShapes ?c2 1"
    using assms(1) by simp_all
  have "normalize_axes (xs[k := xs ! k + r]) r = normalize_axes xs r"
    using k assms(3,4) by (intro normalize_axes_update) simp_all
  then have ax: "normalized_axes ?c1 = normalized_axes ?c2"
    using k assms(2) by (simp add: normalized_axes_def axes_attr_def)
  have kd: "keepdims_attr ?c1 = keepdims_attr ?c2"
    by (simp add: keepdims_attr_def)
  show "getOutputType (ReduceInference ?c1) 0 = getOutputType (ReduceInference ?c2) 0"
    by (simp add: ReduceInference_output [OF h1] ReduceInference_output [OF h2] ax kd)
qed

text \<open>
  The theorem on shape \<open>[2, 3, 4]\<close>: \<open>axis = -1\<close> against \<open>axis = 2\<close>, and
  \<open>axes = [-1]\<close> against \<open>axes = [2]\<close>.
\<close>

theorem negative_axis_same_as_positive_witness:
  "hasNInputShapes ctx_all_axes 1 \<and> int (length (input_dims ctx_all_axes)) = 3 \<and>
   getOutputType (ArgReduceInference (setAttribute ctx_all_axes ''axis'' (int_attr (- 1)))) 0 =
     getOutputType (ArgReduceInference (setAttribute ctx_all_axes ''axis'' (int_attr 2))) 0 \<and>
   getOutputType (ReduceInference (setAttribute ctx_all_axes ''axes'' (ints_attr [- 1]))) 0 =
     getOutputType (ReduceInference (setAttribute ctx_all_axes ''axes'' (ints_attr [2]))) 0"
proof -
  have h: "hasNInputShapes ctx_all_axes 1" and r: "3 = int (length (input_dims ctx_all_axes))"
    by (simp_all add: ctx_all_axes_def)
  note t = negative_axis_same_as_positive [OF h r, of "- 1" "int_attr 0" 0 "[- 1]" "ints_attr []"]
  have a: "(int_attr 0)\<lparr>attr_i := - 1\<rparr> = int_attr (- 1)"
    "(int_attr 0)\<lparr>attr_i := - 1 + 3\<rparr> = int_attr 2"
    by (simp_all add: int_attr_def)
  have b: "(ints_attr [])\<lparr>attr_ints := [- 1]\<rparr> = ints_attr [- 1]"
    "(ints_attr [])\<lparr>attr_ints := [- 1][0 := - 1 + 3]\<rparr> = ints_attr [2]"
    by (simp_all add: ints_attr_def)
  from t have "getOutputType (ArgReduceInference
        (setAttribute ctx_all_axes ''axis'' ((int_attr 0)\<lparr>attr_i := - 1\<rparr>))) 0 =
      getOutputType (ArgReduceInference
        (setAttribute ctx_all_axes ''axis'' ((int_attr 0)\<lparr>attr_i := - 1 + 3\<rparr>))) 0"
    by simp
  moreover from t have "getOutputType (ReduceInference
        (setAttribute ctx_all_axes ''axes'' ((ints_attr [])\<lparr>attr_ints := [- 1]\<rparr>))) 0 =
      getOutputType (ReduceInference
        (setAttribute ctx_all_axes ''axes'' ((ints_attr [])\<lparr>attr_ints := [- 1][0 := - 1 + 3]\<rparr>))) 0"
    by simp
  ultimately show ?thesis using h r unfolding a b by simp
qed

text \<open>
  C7. In the reduce rule with a non-empty list of axes, on an output descriptor that
  holds no dimension before the call: every input axis \<open>i\<close> that is not in the normalized
  list has its dimension, whatever it is (a size, a parameter, or unset), at the output
  slot the loop has reached at \<open>i\<close>, that is right after the dimensions appended for the
  axes before \<open>i\<close>.
\<close>

theorem ReduceInference_copies_unselected:
  assumes "hasNInputShapes ctx 1"
    and "output_dims ctx = []"
    and "normalized_axes ctx \<noteq> []"
    and "i < length (input_dims ctx)"
    and "int i \<notin> set (normalized_axes ctx)"
  shows "output_slot ctx i < length (output_dims (ReduceInference ctx)) \<and>
     output_dims (ReduceInference ctx) ! output_slot ctx i = input_dims ctx ! i"
proof -
  let ?e = "reduce_emit (normalized_axes ctx) (keepdims_attr ctx) (input_dims ctx)"
  let ?r = "length (input_dims ctx)"
  have split: "[0..<?r] = [0..<i] @ i # [Suc i..<?r]"
    using assms(4) by (metis le0 upt_conv_Cons upt_add_eq_append le_add_diff_inverse less_imp_le_nat)
  have here: "?e i = [input_dims ctx ! i]"
    using assms(3,5) by (simp add: reduce_emit_def)
  have before: "length (concat (map ?e [0..<i])) = output_slot ctx i"
    using assms(3) by (simp add: length_concat_reduce_emit output_slot_def)
  have out: "output_dims (ReduceInference ctx) =
      concat (map ?e [0..<i]) @ (input_dims ctx ! i) # concat (map ?e [Suc i..<?r])"
    by (simp add: ReduceInference_output_dims [OF assms(1)] assms(2))
       (subst split, simp add: here)
  show ?thesis
    unfolding out using before by (simp add: nth_append)
qed

text \<open>
  The theorem on shape \<open>[2, 3, N]\<close> with \<open>axes = [1]\<close> and the default \<open>keepdims\<close>: the
  symbolic dimension of axis 2 is at slot 2.
\<close>

theorem ReduceInference_copies_unselected_witness:
  "hasNInputShapes ctx_axes_1_keep 1 \<and> output_dims ctx_axes_1_keep = [] \<and>
   normalized_axes ctx_axes_1_keep = [1] \<and> length (input_dims ctx_axes_1_keep) = 3 \<and>
   output_slot ctx_axes_1_keep 2 = 2 \<and>
   output_dims (ReduceInference ctx_axes_1_keep) ! 2 = dim_param ''N''"
  using ReduceInference_copies_unselected [of ctx_axes_1_keep 2]
  by (simp add: ctx_axes_1_keep_def normalize_axes_def upt_rec_numeral)

text \<open>
  C8. On an available input shape \<open>[2, 3, 4]\<close>, with no \<open>axes\<close> attribute and
  \<open>keepdims = 0\<close>, on an output descriptor that holds no dimension before the call, the
  reduce rule produces the output shape \<open>[]\<close>, of rank 0: the shape is set and has no
  dimension.
\<close>

theorem ReduceInference_all_axes_scenario:
  assumes "hasNInputShapes ctx 1"
    and "output_dims ctx = []"
    and "input_dims ctx = [dim_value 2, dim_value 3, dim_value 4]"
    and "getAttribute ctx ''axes'' = None"
    and "keepdims_attr ctx = 0"
  shows "shape (tensor_type (getOutputType (ReduceInference ctx) 0)) = Some [] \<and>
     length (output_dims (ReduceInference ctx)) = 0"
proof -
  have "normalized_axes ctx = []"
    using assms(4) by (simp add: normalized_axes_def axes_attr_def normalize_axes_def)
  then show ?thesis
    by (simp add: ReduceInference_output [OF assms(1)] ReduceInference_output_dims [OF assms(1)]
        assms(2,3,5) reduce_emit_def)
qed

text \<open>
  The scenario itself.
\<close>

theorem ReduceInference_all_axes_scenario_witness:
  "hasNInputShapes ctx_all_axes 1 \<and> output_dims ctx_all_axes = [] \<and>
   input_dims ctx_all_axes = [dim_value 2, dim_value 3, dim_value 4] \<and>
   getAttribute ctx_all_axes ''axes'' = None \<and> keepdims_attr ctx_all_axes = 0 \<and>
   shape (tensor_type (getOutputType (ReduceInference ctx_all_axes) 0)) = Some [] \<and>
   length (output_dims (ReduceInference ctx_all_axes)) = 0"
  using ReduceInference_all_axes_scenario [of ctx_all_axes]
  by (simp add: ctx_all_axes_def)

text \<open>
  C9. In both rules, on an available input shape and an output descriptor that holds no
  dimension before the call: with \<open>keepdims = 1\<close> every axis has an output dimension, of
  size 1 for a selected axis; with any other value of \<open>keepdims\<close>, not only 0, the
  output dimensions are exactly the input dimensions of the axes that are not selected,
  in order, and a selected axis has none.
\<close>

theorem keepdims_only_1_keeps_selected_axis:
  assumes "hasNInputShapes ctx 1" and "output_dims ctx = []"
  shows "output_dims (ReduceInference ctx) =
     (if keepdims_attr ctx = 1
      then map (\<lambda>j. if int j \<in> selected_axes ctx then dim_value 1 else input_dims ctx ! j)
             [0..<length (input_dims ctx)]
      else map ((!) (input_dims ctx))
             (filter (\<lambda>j. int j \<notin> selected_axes ctx) [0..<length (input_dims ctx)])) \<and>
   output_dims (ArgReduceInference ctx) =
     (if keepdims_attr ctx = 1
      then map (\<lambda>j. if int j = normalized_axis ctx then dim_value 1 else input_dims ctx ! j)
             [0..<length (input_dims ctx)]
      else map ((!) (input_dims ctx))
             (filter (\<lambda>j. int j \<noteq> normalized_axis ctx) [0..<length (input_dims ctx)]))"
proof (cases "keepdims_attr ctx = 1")
  case True
  have r: "map (\<lambda>j. if normalized_axes ctx \<noteq> [] \<and> int j \<notin> set (normalized_axes ctx)
                then input_dims ctx ! j else dim_value 1) [0..<length (input_dims ctx)] =
      map (\<lambda>j. if int j \<in> selected_axes ctx then dim_value 1 else input_dims ctx ! j)
        [0..<length (input_dims ctx)]"
    by (rule map_cong) (simp_all add: selected_axes_member)
  have a: "map (\<lambda>j. if int j \<noteq> normalized_axis ctx then input_dims ctx ! j else dim_value 1)
        [0..<length (input_dims ctx)] =
      map (\<lambda>j. if int j = normalized_axis ctx then dim_value 1 else input_dims ctx ! j)
        [0..<length (input_dims ctx)]"
    by (rule map_cong) simp_all
  show ?thesis
    using True r a
    by (simp add: ReduceInference_output_dims [OF assms(1)]
        ArgReduceInference_output_dims [OF assms(1)] assms(2)
        concat_reduce_emit_keep concat_arg_reduce_emit_keep)
next
  case False
  have r: "filter (\<lambda>j. normalized_axes ctx \<noteq> [] \<and> int j \<notin> set (normalized_axes ctx))
        [0..<length (input_dims ctx)] =
      filter (\<lambda>j. int j \<notin> selected_axes ctx) [0..<length (input_dims ctx)]"
    by (rule filter_cong) (simp_all add: selected_axes_member)
  show ?thesis
    using False r
    by (simp add: ReduceInference_output_dims [OF assms(1)]
        ArgReduceInference_output_dims [OF assms(1)] assms(2)
        concat_reduce_emit_drop concat_arg_reduce_emit_drop)
qed

text \<open>
  The theorem with \<open>keepdims = 2\<close> on shape \<open>[2, 3, N]\<close>, axis 1 selected in both
  rules: the axis is dropped.
\<close>

theorem keepdims_only_1_keeps_selected_axis_witness:
  "hasNInputShapes ctx_keepdims_2 1 \<and> output_dims ctx_keepdims_2 = [] \<and>
   keepdims_attr ctx_keepdims_2 = 2 \<and>
   output_dims (ReduceInference ctx_keepdims_2) = [dim_value 2, dim_param ''N''] \<and>
   output_dims (ArgReduceInference ctx_keepdims_2) = [dim_value 2, dim_param ''N'']"
  using keepdims_only_1_keeps_selected_axis [of ctx_keepdims_2]
  by (simp add: ctx_keepdims_2_def normalize_axes_def upt_3)

text \<open>
  C10. In the arg-reduce rule, on an available input shape and an output descriptor that
  holds no dimension before the call: when the normalized axis is negative or at least
  the rank, the output dimensions are the input dimensions, whatever \<open>keepdims\<close> is.
  The rule is a total function; it has no error to raise.
\<close>

theorem ArgReduceInference_axis_out_of_range:
  assumes "hasNInputShapes ctx 1"
    and "output_dims ctx = []"
    and "normalized_axis ctx < 0 \<or> int (length (input_dims ctx)) \<le> normalized_axis ctx"
  shows "output_dims (ArgReduceInference ctx) = input_dims ctx"
proof (cases "keepdims_attr ctx = 1")
  case True
  have "map (\<lambda>j. if int j \<noteq> normalized_axis ctx then input_dims ctx ! j else dim_value 1)
          [0..<length (input_dims ctx)] = map ((!) (input_dims ctx)) [0..<length (input_dims ctx)]"
    using assms(3) by (intro map_cong) auto
  then show ?thesis
    using True
    by (simp add: ArgReduceInference_output_dims [OF assms(1)] assms(2)
        concat_arg_reduce_emit_keep map_nth)
next
  case False
  show ?thesis
    by (simp add: ArgReduceInference_output_dims [OF assms(1)] assms(2)
        concat_arg_reduce_emit_drop [OF False] filter_neq_upt_outside [OF assms(3)] map_nth)
qed

text \<open>
  The theorem on shape \<open>[5, N]\<close> with \<open>axis = 5\<close> and \<open>keepdims = 0\<close>.
\<close>

theorem ArgReduceInference_axis_out_of_range_witness:
  "hasNInputShapes ctx_arg_axis5 1 \<and> output_dims ctx_arg_axis5 = [] \<and>
   normalized_axis ctx_arg_axis5 = 5 \<and> length (input_dims ctx_arg_axis5) = 2 \<and>
   keepdims_attr ctx_arg_axis5 = 0 \<and>
   output_dims (ArgReduceInference ctx_arg_axis5) = [dim_value 5, dim_param ''N'']"
  using ArgReduceInference_axis_out_of_range [of ctx_arg_axis5]
  by (simp add: ctx_arg_axis5_def)

end
